theory Spec2Isabelle
  imports Main
begin

section \<open>The Go library functions the package calls\<close>

text \<open>
  Go strings are byte sequences; they are modelled as \<open>string\<close> (a list of \<open>char\<close>, one
  per byte). The package \<open>pkg\<close> (file \<open>pkg/json.go\<close>) uses \<open>strings.ReplaceAll\<close>,
  \<open>strings.Join\<close> and \<open>fmt.Sprintf\<close> of the standard library; they are modelled here by
  what their documentation says they return.
\<close>

fun HasPrefix :: "string \<Rightarrow> string \<Rightarrow> bool" where
  "HasPrefix s [] = True"
| "HasPrefix [] (p # ps) = False"
| "HasPrefix (c # cs) (p # ps) = (c = p \<and> HasPrefix cs ps)"

text \<open>
  \<open>strings.ReplaceAll(s, old, new)\<close>: every non-overlapping instance of \<open>old\<close> in \<open>s\<close>,
  found from left to right, is replaced by \<open>new\<close>. For an empty \<open>old\<close> Go inserts \<open>new\<close>
  before every character and at the end (the package never passes an empty \<open>old\<close>).
\<close>

function ReplaceAll :: "string \<Rightarrow> string \<Rightarrow> string \<Rightarrow> string" where
  "ReplaceAll [] old new = (if old = [] then new else [])"
| "ReplaceAll (c # cs) old new =
     (if old = [] then new @ c # ReplaceAll cs old new
      else if HasPrefix (c # cs) old then new @ ReplaceAll (drop (length old) (c # cs)) old new
      else c # ReplaceAll cs old new)"
  by pat_completeness auto
termination
  by (relation "measure (\<lambda>(s, old, new). length s)") (auto simp: neq_Nil_conv)

text \<open>\<open>strings.Join(elems, sep)\<close>: the elements, with \<open>sep\<close> between them.\<close>

fun Join :: "string list \<Rightarrow> string \<Rightarrow> string" where
  "Join [] sep = []"
| "Join [e] sep = e"
| "Join (e # es) sep = e @ sep @ Join es sep"

text \<open>
  \<open>fmt.Sprintf\<close>, for the two verbs the package uses, \<open>%s\<close> with a string and \<open>%d\<close>
  with an \<open>int\<close>, without flags. A verb that does not fit its operand, a missing or an
  extra operand and a trailing \<open>%\<close> give the markers of the package \<open>fmt\<close>; no call of
  the package reaches them. An \<open>int\<close> is printed in base ten.
\<close>

datatype fmt_arg = ArgString string | ArgInt int

fun FormatUint :: "nat \<Rightarrow> string" where
  "FormatUint n =
     (if n < 10 then [char_of (48 + n)]
      else FormatUint (n div 10) @ [char_of (48 + n mod 10)])"

declare FormatUint.simps [simp del]

definition Itoa :: "int \<Rightarrow> string" where
  "Itoa i = (if i < 0 then CHR ''-'' # FormatUint (nat (- i)) else FormatUint (nat i))"

fun format_arg :: "char \<Rightarrow> fmt_arg \<Rightarrow> string" where
  "format_arg v (ArgString s) =
     (if v = CHR ''s'' then s else ''%!'' @ [v] @ ''(string='' @ s @ '')'')"
| "format_arg v (ArgInt i) =
     (if v = CHR ''d'' then Itoa i else ''%!'' @ [v] @ ''(int='' @ Itoa i @ '')'')"

fun extra_arg :: "fmt_arg \<Rightarrow> string" where
  "extra_arg (ArgString s) = ''string='' @ s"
| "extra_arg (ArgInt i) = ''int='' @ Itoa i"

fun Sprintf :: "string \<Rightarrow> fmt_arg list \<Rightarrow> string" where
  "Sprintf [] args =
     (if args = [] then [] else ''%!(EXTRA '' @ Join (map extra_arg args) '', '' @ '')'')"
| "Sprintf [c] args = (if c = CHR ''%'' then ''%!(NOVERB)'' else c # Sprintf [] args)"
| "Sprintf (c # v # cs) args =
     (if c \<noteq> CHR ''%'' then c # Sprintf (v # cs) args
      else if v = CHR ''%'' then CHR ''%'' # Sprintf cs args
      else (case args of
              [] \<Rightarrow> ''%!'' @ [v] @ ''(MISSING)'' @ Sprintf cs []
            | a # as \<Rightarrow> format_arg v a @ Sprintf cs as))"

section \<open>Escaping of JSON Pointer reference tokens\<close>

text \<open>
  \<^verbatim>\<open>
  func SanitizeKeyForJsonPatch(key string) string {
      return strings.ReplaceAll(strings.ReplaceAll(key, "~", "~0"), "/", "~1")
  }
  func UnSanitizeKeyForJsonPatch(key string) string {
      return strings.ReplaceAll(strings.ReplaceAll(key, "~1", "/"), "~0", "~")
  }
  \<close>
\<close>

definition SanitizeKeyForJsonPatch :: "string \<Rightarrow> string" where
  "SanitizeKeyForJsonPatch key = ReplaceAll (ReplaceAll key ''~'' ''~0'') ''/'' ''~1''"

definition UnSanitizeKeyForJsonPatch :: "string \<Rightarrow> string" where
  "UnSanitizeKeyForJsonPatch key = ReplaceAll (ReplaceAll key ''~1'' ''/'') ''~0'' ''~''"

text \<open>
  The escaped tokens: no \<open>/\<close>, and every \<open>~\<close> is followed by \<open>0\<close> or \<open>1\<close>. This is a
  notion of the verification, used to say where escaping after un-escaping gives the
  token back.
\<close>

fun escaped_token :: "string \<Rightarrow> bool" where
  "escaped_token [] = True"
| "escaped_token (c # cs) =
     (if c = CHR ''~'' then
        (case cs of [] \<Rightarrow> False
         | d # ds \<Rightarrow> (d = CHR ''0'' \<or> d = CHR ''1'') \<and> escaped_token ds)
      else c \<noteq> CHR ''/'' \<and> escaped_token cs)"

section \<open>The data of the package\<close>

text \<open>
  \<^verbatim>\<open>
  type (
      JsonPatch struct { patch string }
      PatchFunc func() error
      NoPatchRequired struct { message string }
  )
  func (p *JsonPatch) Get() string { return p.patch }
  func (e *NoPatchRequired) Error() string { return e.message }
  \<close>
  An \<open>error\<close> of Go is \<open>nil\<close> (\<open>None\<close> below), a \<open>NoPatchRequired\<close> or, in
  \<open>JsonPatchSpec\<close>, whatever \<open>json.Marshal\<close> returned, kept by its message.
\<close>

record JsonPatch =
  patch :: string

definition Get :: "JsonPatch \<Rightarrow> string" where
  "Get p = patch p"

datatype error = NoPatchRequired string | MarshalError string

fun Error :: "error \<Rightarrow> string" where
  "Error (NoPatchRequired message) = message"
| "Error (MarshalError message) = message"

text \<open>
  Every \<open>PatchFunc\<close> the package builds is the closure
  \<^verbatim>\<open>func() error { return clt.Patch(ctx, obj, client.RawPatch(types.JSONPatchType, data)) }\<close>
  over the context, the client and the object it was given, which the builders pass on
  untouched. It is represented by the bytes \<open>data\<close> it sends; a \<open>nil\<close> function is
  \<open>None\<close>.
\<close>

datatype PatchFunc = PatchFunc (data: string)

text \<open>
  A slice of strings is \<open>nil\<close> or has elements; \<open>len\<close> of a \<open>nil\<close> slice is 0 and a
  \<open>range\<close> over it has no iteration. Of the object only \<open>GetFinalizers()\<close> is read.
\<close>

type_synonym string_slice = "string list option"

fun len_slice :: "string_slice \<Rightarrow> nat" where
  "len_slice None = 0"
| "len_slice (Some xs) = length xs"

fun range_slice :: "string_slice \<Rightarrow> string list" where
  "range_slice None = []"
| "range_slice (Some xs) = xs"

record Object =
  Finalizers :: string_slice

definition GetFinalizers :: "Object \<Rightarrow> string_slice" where
  "GetFinalizers obj = Finalizers obj"

text \<open>
  A \<open>map[string]string\<close> is \<open>nil\<close> or holds entries. The entries are listed in the order
  in which this run's \<open>range\<close> yields them (Go fixes no order; each key comes once).
  \<open>len\<close> of a \<open>nil\<close> map is 0, a lookup in it finds nothing, a \<open>range\<close> over it has
  no iteration.
\<close>

type_synonym string_map = "(string \<times> string) list option"

fun len_map :: "string_map \<Rightarrow> nat" where
  "len_map None = 0"
| "len_map (Some kvs) = length kvs"

fun range_map :: "string_map \<Rightarrow> (string \<times> string) list" where
  "range_map None = []"
| "range_map (Some kvs) = kvs"

fun lookup :: "string_map \<Rightarrow> string \<Rightarrow> string option" where
  "lookup None k = None"
| "lookup (Some kvs) k = map_of kvs k"

section \<open>Finalizer patches\<close>

text \<open>
  \<^verbatim>\<open>
  var addFinalizerPatch JsonPatch
  if obj.GetFinalizers() == nil {
      addFinalizerPatch = JsonPatch{fmt.Sprintf(
          "{\"op\": \"add\", \"path\": \"/metadata/finalizers\", \"value\": [\"%s\"]}", finalizer)}
  } else {
      addFinalizerPatch = JsonPatch{fmt.Sprintf(
          "{\"op\": \"add\", \"path\": \"/metadata/finalizers/-\", \"value\": \"%s\"}", finalizer)}
  }
  return addFinalizerPatch, func() error { ... []byte("["+addFinalizerPatch.Get()+"]") ... }, nil
  \<close>
\<close>

definition JsonPatchFinalizerIn :: "Object \<Rightarrow> string \<Rightarrow> JsonPatch \<times> PatchFunc option \<times> error option" where
  \<open>JsonPatchFinalizerIn obj finalizer =
     (let addFinalizerPatch =
            (if GetFinalizers obj = None then
               \<lparr>patch = Sprintf ''{"op": "add", "path": "/metadata/finalizers", "value": ["%s"]}''
                          [ArgString finalizer]\<rparr>
             else
               \<lparr>patch = Sprintf ''{"op": "add", "path": "/metadata/finalizers/-", "value": "%s"}''
                          [ArgString finalizer]\<rparr>)
      in (addFinalizerPatch, Some (PatchFunc (''['' @ Get addFinalizerPatch @ '']'')), None))\<close>

text \<open>
  The loop of \<open>JsonPatchFinalizerOut\<close>, with the index and the patch variable as its
  state; \<open>break\<close> ends it at the first match.
  \<^verbatim>\<open>
  for idx, fin := range obj.GetFinalizers() {
      if fin == finalizer {
          removeFinalizerPatch = JsonPatch{fmt.Sprintf(
              "{\"op\": \"remove\", \"path\": \"/metadata/finalizers/%d\"}", idx)}
          break
      }
  }
  \<close>
\<close>

fun range_finalizers :: "string list \<Rightarrow> string \<Rightarrow> nat \<Rightarrow> JsonPatch \<Rightarrow> JsonPatch" where
  \<open>range_finalizers [] finalizer idx removeFinalizerPatch = removeFinalizerPatch\<close>
| \<open>range_finalizers (fin # fins) finalizer idx removeFinalizerPatch =
     (if fin = finalizer then
        \<lparr>patch = Sprintf ''{"op": "remove", "path": "/metadata/finalizers/%d"}'' [ArgInt (int idx)]\<rparr>
      else range_finalizers fins finalizer (Suc idx) removeFinalizerPatch)\<close>

text \<open>
  \<^verbatim>\<open>
  var removeFinalizerPatch JsonPatch
  if len(obj.GetFinalizers()) == 1 {
      removeFinalizerPatch = JsonPatch{"{\"op\": \"remove\", \"path\": \"/metadata/finalizers\"}"}
  } else {
      for ... (above)
      if len(removeFinalizerPatch.Get()) == 0 {
          return removeFinalizerPatch, nil, &NoPatchRequired{"finalizer index not found"}
      }
  }
  return removeFinalizerPatch, func() error { ... []byte("["+removeFinalizerPatch.Get()+"]") ... }, nil
  \<close>
\<close>

definition JsonPatchFinalizerOut :: "Object \<Rightarrow> string \<Rightarrow> JsonPatch \<times> PatchFunc option \<times> error option" where
  \<open>JsonPatchFinalizerOut obj finalizer =
     (if len_slice (GetFinalizers obj) = 1 then
        (let removeFinalizerPatch = \<lparr>patch = ''{"op": "remove", "path": "/metadata/finalizers"}''\<rparr>
         in (removeFinalizerPatch, Some (PatchFunc (''['' @ Get removeFinalizerPatch @ '']'')), None))
      else
        (let removeFinalizerPatch =
               range_finalizers (range_slice (GetFinalizers obj)) finalizer 0 \<lparr>patch = ''''\<rparr>
         in if length (Get removeFinalizerPatch) = 0 then
              (removeFinalizerPatch, None, Some (NoPatchRequired ''finalizer index not found''))
            else
              (removeFinalizerPatch, Some (PatchFunc (''['' @ Get removeFinalizerPatch @ '']'')), None)))\<close>

section \<open>Map patches\<close>

definition patchNewMapTemplate :: string where
  \<open>patchNewMapTemplate = ''{"op": "add", "path": "%s", "value": {"%s": "%s"}}''\<close>

definition patchExistingMapTemplate :: string where
  \<open>patchExistingMapTemplate = ''{"op": "%s", "path": "%s/%s", "value": "%s"}''\<close>

text \<open>
  The loop of the branch \<open>len(origMap) == 0\<close>, with the flag \<open>first\<close> and the slice
  \<open>patches\<close> as its state.
  \<^verbatim>\<open>
  first := true
  for k, v := range newMap {
      if first {
          patches = append(patches, fmt.Sprintf(patchNewMapTemplate, path, UnSanitizeKeyForJsonPatch(k), v))
          first = false
      } else {
          patches = append(patches, fmt.Sprintf(patchExistingMapTemplate, "add", path, k, v))
      }
  }
  \<close>
\<close>

fun range_new_map :: "string \<Rightarrow> (string \<times> string) list \<Rightarrow> bool \<Rightarrow> string list \<Rightarrow> string list" where
  "range_new_map path [] first patches = patches"
| "range_new_map path ((k, v) # kvs) first patches =
     (if first then
        range_new_map path kvs False
          (patches @ [Sprintf patchNewMapTemplate
                        [ArgString path, ArgString (UnSanitizeKeyForJsonPatch k), ArgString v]])
      else
        range_new_map path kvs first
          (patches @ [Sprintf patchExistingMapTemplate
                        [ArgString ''add'', ArgString path, ArgString k, ArgString v]]))"

text \<open>
  The loop of the other branch.
  \<^verbatim>\<open>
  for k, v := range newMap {
      if value, found := origMap[k]; found {
          if v != value {
              patches = append(patches, fmt.Sprintf(patchExistingMapTemplate, "replace", path, k, v))
          }
      } else {
          patches = append(patches, fmt.Sprintf(patchExistingMapTemplate, "add", path, k, v))
      }
  }
  \<close>
\<close>

fun range_existing_map ::
  "string \<Rightarrow> string_map \<Rightarrow> (string \<times> string) list \<Rightarrow> string list \<Rightarrow> string list" where
  "range_existing_map path origMap [] patches = patches"
| "range_existing_map path origMap ((k, v) # kvs) patches =
     (case lookup origMap k of
        Some value \<Rightarrow>
          (if v \<noteq> value then
             range_existing_map path origMap kvs
               (patches @ [Sprintf patchExistingMapTemplate
                             [ArgString ''replace'', ArgString path, ArgString k, ArgString v]])
           else range_existing_map path origMap kvs patches)
      | None \<Rightarrow>
          range_existing_map path origMap kvs
            (patches @ [Sprintf patchExistingMapTemplate
                          [ArgString ''add'', ArgString path, ArgString k, ArgString v]]))"

text \<open>
  \<^verbatim>\<open>
  var patches []string
  if len(origMap) == 0 { ... } else { ... }
  var patchObjs []JsonPatch
  for _, p := range patches { patchObjs = append(patchObjs, JsonPatch{p}) }
  if len(patches) < 1 {
      return patchObjs, nil, &NoPatchRequired{"nothing to patch in map"}
  }
  return patchObjs, func() error { ... []byte("["+strings.Join(patches, ",")+"]") ... }, nil
  \<close>
\<close>

definition JsonPatchMap ::
  "string \<Rightarrow> string_map \<Rightarrow> string_map \<Rightarrow> JsonPatch list \<times> PatchFunc option \<times> error option" where
  "JsonPatchMap path origMap newMap =
     (let patches =
            (if len_map origMap = 0 then range_new_map path (range_map newMap) True []
             else range_existing_map path origMap (range_map newMap) []);
          patchObjs = map (\<lambda>p. \<lparr>patch = p\<rparr>) patches
      in if length patches < 1 then
           (patchObjs, None, Some (NoPatchRequired ''nothing to patch in map''))
         else
           (patchObjs, Some (PatchFunc (''['' @ Join patches '','' @ '']'')), None))"

section \<open>Spec patches\<close>

text \<open>
  \<open>json.Marshal\<close> belongs to the standard library and depends on the type \<open>T\<close> of the
  payload; it is a parameter of the model, returning the encoding or an error.
  \<^verbatim>\<open>
  marshaled, err := json.Marshal(spec)
  if err != nil {
      return JsonPatch{""}, nil, err
  }
  patch := JsonPatch{"{\"op\": \"replace\", \"path\": \"/spec\", \"value\": " + string(marshaled) + "}"}
  return patch, func() error { ... []byte("["+patch.Get()+"]") ... }, nil
  \<close>
\<close>

definition JsonPatchSpec ::
  "('a \<Rightarrow> error + string) \<Rightarrow> 'a \<Rightarrow> JsonPatch \<times> PatchFunc option \<times> error option" where
  \<open>JsonPatchSpec Marshal spec =
     (case Marshal spec of
        Inl err \<Rightarrow> (\<lparr>patch = ''''\<rparr>, None, Some err)
      | Inr marshaled \<Rightarrow>
          (let patch = \<lparr>patch = ''{"op": "replace", "path": "/spec", "value": '' @ marshaled @ ''}''\<rparr>
           in (patch, Some (PatchFunc (''['' @ Get patch @ '']'')), None)))\<close>

section \<open>Notions of the verification\<close>

text \<open>
  The operations of RFC 6902 as the package writes them: a member operation \<open>op\<close> at
  \<open>path/key\<close> with a string value, and the operation that creates the container at
  \<open>path\<close> with one member.
\<close>

definition member_op :: "string \<Rightarrow> string \<Rightarrow> string \<Rightarrow> string \<Rightarrow> string" where
  \<open>member_op op path key v =
     ''{"op": "'' @ op @ ''", "path": "'' @ path @ ''/'' @ key @ ''", "value": "'' @ v @ ''"}''\<close>

definition container_op :: "string \<Rightarrow> string \<Rightarrow> string \<Rightarrow> string" where
  \<open>container_op path key v =
     ''{"op": "add", "path": "'' @ path @ ''", "value": {"'' @ key @ ''": "'' @ v @ ''"}}''\<close>

text \<open>The operations on the list \<open>/metadata/finalizers\<close> and on \<open>/spec\<close>.\<close>

definition finalizers_create_op :: "string \<Rightarrow> string" where
  \<open>finalizers_create_op f =
     ''{"op": "add", "path": "/metadata/finalizers", "value": ["'' @ f @ ''"]}''\<close>

definition finalizers_append_op :: "string \<Rightarrow> string" where
  \<open>finalizers_append_op f =
     ''{"op": "add", "path": "/metadata/finalizers/-", "value": "'' @ f @ ''"}''\<close>

definition finalizers_remove_op :: string where
  \<open>finalizers_remove_op = ''{"op": "remove", "path": "/metadata/finalizers"}''\<close>

definition finalizers_remove_index_op :: "nat \<Rightarrow> string" where
  \<open>finalizers_remove_index_op i =
     ''{"op": "remove", "path": "/metadata/finalizers/'' @ Itoa (int i) @ ''"}''\<close>

definition spec_replace_op :: "string \<Rightarrow> string" where
  \<open>spec_replace_op marshaled =
     ''{"op": "replace", "path": "/spec", "value": '' @ marshaled @ ''}''\<close>

text \<open>
  The name of the operation of a patch: the text between \<open>{"op": "\<close> and the next
  double quote.
\<close>

definition op_name :: "string \<Rightarrow> string option" where
  \<open>op_name p =
     (if HasPrefix p ''{"op": "'' then Some (takeWhile (\<lambda>c. c \<noteq> CHR 0x22) (drop 8 p))
      else None)\<close>

text \<open>The patches of the second branch of \<open>JsonPatchMap\<close> for one entry of \<open>newMap\<close>.\<close>

definition entry_ops :: "string \<Rightarrow> string_map \<Rightarrow> string \<times> string \<Rightarrow> string list" where
  "entry_ops path origMap kv =
     (case lookup origMap (fst kv) of
        None \<Rightarrow> [member_op ''add'' path (fst kv) (snd kv)]
      | Some value \<Rightarrow>
          if snd kv \<noteq> value then [member_op ''replace'' path (fst kv) (snd kv)] else [])"

text \<open>The index of the first element equal to \<open>x\<close> (the length, when there is none).\<close>

definition first_index :: "string list \<Rightarrow> string \<Rightarrow> nat" where
  "first_index xs x = length (takeWhile (\<lambda>y. y \<noteq> x) xs)"

text \<open>The text after \<open>"value": \<close> in a patch that replaces \<open>/spec\<close>, when it is one.\<close>

definition spec_value :: "string \<Rightarrow> string option" where
  \<open>spec_value p =
     (let pre = ''{"op": "replace", "path": "/spec", "value": ''
      in if HasPrefix p pre \<and> length pre < length p \<and> last p = CHR ''}''
         then Some (butlast (drop (length pre) p)) else None)\<close>

text \<open>
  \<open>encoding/json\<close> on the Go type \<^verbatim>\<open>struct { a int }\<close>, a payload that
  \<open>JsonPatchSpec\<close> accepts like any other; the payload is given by the value of its
  field. The field is not exported, so \<open>json.Marshal\<close> leaves it out and returns
  \<open>{}\<close> for every payload, without an error; \<open>json.Unmarshal\<close> of \<open>{}\<close> into this type
  gives the payload whose field is 0. The decoder is modelled on the text \<open>{}\<close> only
  (every other text is \<open>None\<close> here).
\<close>

definition marshal_unexported :: "int \<Rightarrow> error + string" where
  "marshal_unexported a = Inr ''{}''"

definition unmarshal_unexported :: "string \<Rightarrow> int option" where
  "unmarshal_unexported s = (if s = ''{}'' then Some 0 else None)"

text \<open>
  The characters an escaped token is made of, one original character at a time, for
  both passes of \<open>SanitizeKeyForJsonPatch\<close> and for its first pass alone.
\<close>

definition escape_char :: "char \<Rightarrow> string" where
  "escape_char c = (if c = CHR ''~'' then ''~0'' else if c = CHR ''/'' then ''~1'' else [c])"

definition escape_tilde :: "char \<Rightarrow> string" where
  "escape_tilde c = (if c = CHR ''~'' then ''~0'' else [c])"

section \<open>Properties of the escaping\<close>

lemma replace_tilde: "ReplaceAll s ''~'' ''~0'' = concat (map escape_tilde s)"
  by (induction s) (simp_all add: escape_tilde_def)

lemma replace_slash_after_tilde:
  "ReplaceAll (concat (map escape_tilde s)) ''/'' ''~1'' = concat (map escape_char s)"
  by (induction s) (simp_all add: escape_tilde_def escape_char_def)

lemma Sanitize_concat: "SanitizeKeyForJsonPatch s = concat (map escape_char s)"
  by (simp add: SanitizeKeyForJsonPatch_def replace_tilde replace_slash_after_tilde)

lemma unreplace_slash:
  "ReplaceAll (concat (map escape_char s)) ''~1'' ''/'' = concat (map escape_tilde s)"
  by (induction s) (simp_all add: escape_tilde_def escape_char_def)

lemma unreplace_tilde: "ReplaceAll (concat (map escape_tilde s)) ''~0'' ''~'' = s"
  by (induction s) (simp_all add: escape_tilde_def)

lemma UnSanitize_Sanitize: "UnSanitizeKeyForJsonPatch (SanitizeKeyForJsonPatch s) = s"
  by (simp add: UnSanitizeKeyForJsonPatch_def Sanitize_concat unreplace_slash unreplace_tilde)

lemma escaped_token_Sanitize: "escaped_token (SanitizeKeyForJsonPatch s)"
  unfolding Sanitize_concat by (induction s) (simp_all add: escape_char_def)

lemma escaped_token_range: "escaped_token t \<Longrightarrow> \<exists>s. t = SanitizeKeyForJsonPatch s"
proof (induction t rule: escaped_token.induct)
  case 1
  have "[] = SanitizeKeyForJsonPatch []"
    by (simp add: Sanitize_concat)
  then show ?case by blast
next
  case (2 c cs)
  show ?case
  proof (cases "c = CHR ''~''")
    case True
    with "2.prems" obtain d ds where cs: "cs = d # ds"
      and d: "d = CHR ''0'' \<or> d = CHR ''1''" and ds: "escaped_token ds"
      by (auto split: list.splits)
    from "2.IH"(1) [OF True cs] d ds obtain s where s: "ds = SanitizeKeyForJsonPatch s"
      by blast
    from d show ?thesis
    proof
      assume "d = CHR ''0''"
      with True cs s have "c # cs = SanitizeKeyForJsonPatch (CHR ''~'' # s)"
        by (simp add: Sanitize_concat escape_char_def)
      then show ?thesis by blast
    next
      assume "d = CHR ''1''"
      with True cs s have "c # cs = SanitizeKeyForJsonPatch (CHR ''/'' # s)"
        by (simp add: Sanitize_concat escape_char_def)
      then show ?thesis by blast
    qed
  next
    case False
    with "2.prems" have c: "c \<noteq> CHR ''/''" and "escaped_token cs"
      by simp_all
    with "2.IH"(2) [OF False] obtain s where "cs = SanitizeKeyForJsonPatch s"
      by blast
    with False c have "c # cs = SanitizeKeyForJsonPatch (c # s)"
      by (simp add: Sanitize_concat escape_char_def)
    then show ?thesis by blast
  qed
qed

lemma Sanitize_UnSanitize_iff:
  "SanitizeKeyForJsonPatch (UnSanitizeKeyForJsonPatch t) = t \<longleftrightarrow> escaped_token t"
proof
  assume "SanitizeKeyForJsonPatch (UnSanitizeKeyForJsonPatch t) = t"
  then have "escaped_token (SanitizeKeyForJsonPatch (UnSanitizeKeyForJsonPatch t)) = escaped_token t"
    by simp
  then show "escaped_token t"
    by (simp add: escaped_token_Sanitize)
next
  assume "escaped_token t"
  then obtain s where "t = SanitizeKeyForJsonPatch s"
    using escaped_token_range by blast
  then show "SanitizeKeyForJsonPatch (UnSanitizeKeyForJsonPatch t) = t"
    by (simp add: UnSanitize_Sanitize)
qed

text \<open>
  Claim C5. Un-escaping an escaped key gives the key back, for every string: with
  \<open>SanitizeKeyForJsonPatch\<close> replacing \<open>~\<close> by \<open>~0\<close> and then \<open>/\<close> by \<open>~1\<close>, and
  \<open>UnSanitizeKeyForJsonPatch\<close> replacing \<open>~1\<close> by \<open>/\<close> and then \<open>~0\<close> by \<open>~\<close>,
  \<open>UnSanitizeKeyForJsonPatch (SanitizeKeyForJsonPatch s) = s\<close>.
\<close>

theorem C5_unescape_escape:
  "SanitizeKeyForJsonPatch s = ReplaceAll (ReplaceAll s ''~'' ''~0'') ''/'' ''~1''
   \<and> UnSanitizeKeyForJsonPatch s = ReplaceAll (ReplaceAll s ''~1'' ''/'') ''~0'' ''~''
   \<and> UnSanitizeKeyForJsonPatch (SanitizeKeyForJsonPatch s) = s"
  by (simp add: UnSanitize_Sanitize)
    (simp add: SanitizeKeyForJsonPatch_def UnSanitizeKeyForJsonPatch_def)

theorem C5_unescape_escape_witness:
  "SanitizeKeyForJsonPatch ''my~map/key'' = ''my~0map~1key''
   \<and> UnSanitizeKeyForJsonPatch (SanitizeKeyForJsonPatch ''my~map/key'') = ''my~map/key''"
proof -
  have "SanitizeKeyForJsonPatch ''my~map/key'' = ''my~0map~1key''"
    by (simp add: SanitizeKeyForJsonPatch_def)
  then show ?thesis
    using C5_unescape_escape [of "''my~map/key''"] by blast
qed

text \<open>
  Claim C4, as stated: for a string of \<open>~\<close> and \<open>/\<close> both
  \<open>UnSanitizeKeyForJsonPatch (SanitizeKeyForJsonPatch t) = t\<close> and
  \<open>SanitizeKeyForJsonPatch (UnSanitizeKeyForJsonPatch t) = t\<close>. The second equation
  fails at \<open>t = ''~/''\<close>, which un-escapes to itself and escapes to \<open>~0~1\<close>.
\<close>

theorem C4_two_way_inverse_counterexample:
  "\<not> (UnSanitizeKeyForJsonPatch (SanitizeKeyForJsonPatch ''~/'') = ''~/''
      \<and> SanitizeKeyForJsonPatch (UnSanitizeKeyForJsonPatch ''~/'') = ''~/'')"
  by (simp add: SanitizeKeyForJsonPatch_def UnSanitizeKeyForJsonPatch_def)

text \<open>
  Claim C4, amended: for every string \<open>t\<close>, with \<open>~\<close> and \<open>/\<close> in any combination and
  count, un-escaping the escaped \<open>t\<close> gives \<open>t\<close>; escaping the un-escaped \<open>t\<close> gives \<open>t\<close>
  exactly when \<open>t\<close> is an escaped token (it has no \<open>/\<close> and each \<open>~\<close> in it is followed
  by \<open>0\<close> or \<open>1\<close>), and the escaped tokens are exactly the results of escaping.
\<close>

theorem C4_inverse_on_escaped_tokens:
  "UnSanitizeKeyForJsonPatch (SanitizeKeyForJsonPatch t) = t
   \<and> (SanitizeKeyForJsonPatch (UnSanitizeKeyForJsonPatch t) = t \<longleftrightarrow> escaped_token t)
   \<and> (escaped_token t \<longleftrightarrow> (\<exists>s. t = SanitizeKeyForJsonPatch s))"
  using UnSanitize_Sanitize Sanitize_UnSanitize_iff escaped_token_range escaped_token_Sanitize
  by blast

theorem C4_inverse_on_escaped_tokens_witness:
  "UnSanitizeKeyForJsonPatch (SanitizeKeyForJsonPatch ''~/~~//'') = ''~/~~//''
   \<and> escaped_token ''a~0b~1~01''
   \<and> SanitizeKeyForJsonPatch (UnSanitizeKeyForJsonPatch ''a~0b~1~01'') = ''a~0b~1~01''
   \<and> \<not> escaped_token ''~/''
   \<and> SanitizeKeyForJsonPatch (UnSanitizeKeyForJsonPatch ''~/'') \<noteq> ''~/''"
proof -
  have "escaped_token ''a~0b~1~01''" and "\<not> escaped_token ''~/''"
    by simp_all
  then show ?thesis
    using C4_inverse_on_escaped_tokens [of "''~/~~//''"]
      C4_inverse_on_escaped_tokens [of "''a~0b~1~01''"]
      C4_inverse_on_escaped_tokens [of "''~/''"]
    by blast
qed

section \<open>Properties of the patch builders\<close>

lemma Sprintf_new: "Sprintf patchNewMapTemplate [ArgString path, ArgString k, ArgString v] = container_op path k v"
  by (simp add: patchNewMapTemplate_def container_op_def)

lemma Sprintf_existing: "Sprintf patchExistingMapTemplate [ArgString op, ArgString path, ArgString k, ArgString v] = member_op op path k v"
  by (simp add: patchExistingMapTemplate_def member_op_def)

lemma Sprintf_create: \<open>Sprintf ''{"op": "add", "path": "/metadata/finalizers", "value": ["%s"]}'' [ArgString f] = finalizers_create_op f\<close>
  by (simp add: finalizers_create_op_def)

lemma Sprintf_append: \<open>Sprintf ''{"op": "add", "path": "/metadata/finalizers/-", "value": "%s"}'' [ArgString f] = finalizers_append_op f\<close>
  by (simp add: finalizers_append_op_def)

lemma Sprintf_remove_index: \<open>Sprintf ''{"op": "remove", "path": "/metadata/finalizers/%d"}'' [ArgInt (int i)] = finalizers_remove_index_op i\<close>
  by (simp add: finalizers_remove_index_op_def)

lemma range_new_map_rest:
  "range_new_map path kvs False patches = patches @ map (\<lambda>kv. member_op ''add'' path (fst kv) (snd kv)) kvs"
  by (induction kvs arbitrary: patches) (auto simp: Sprintf_existing simp del: Sprintf.simps)

lemma range_new_map_first:
  "range_new_map path ((k, v) # kvs) True patches =
     patches @ container_op path (UnSanitizeKeyForJsonPatch k) v
       # map (\<lambda>kv. member_op ''add'' path (fst kv) (snd kv)) kvs"
  by (simp add: Sprintf_new range_new_map_rest del: Sprintf.simps)

lemma range_existing_map_concat:
  "range_existing_map path origMap kvs patches = patches @ concat (map (entry_ops path origMap) kvs)"
  by (induction kvs arbitrary: patches) (auto simp: Sprintf_existing entry_ops_def simp del: Sprintf.simps split: option.splits)

lemma range_finalizers_found:
  "finalizer \<in> set fins \<Longrightarrow>
   range_finalizers fins finalizer idx p = \<lparr>patch = finalizers_remove_index_op (idx + first_index fins finalizer)\<rparr>"
  by (induction fins arbitrary: idx)
    (auto simp: Sprintf_remove_index first_index_def simp del: Sprintf.simps)

lemma range_finalizers_not_found:
  "finalizer \<notin> set fins \<Longrightarrow> range_finalizers fins finalizer idx p = p"
  by (induction fins arbitrary: idx) auto

lemma first_index_less: "x \<in> set xs \<Longrightarrow> first_index xs x < length xs"
  by (induction xs) (auto simp: first_index_def)

lemma first_index_nth: "x \<in> set xs \<Longrightarrow> xs ! first_index xs x = x"
  by (induction xs) (auto simp: first_index_def)

lemma first_index_first: "j < first_index xs x \<Longrightarrow> xs ! j \<noteq> x"
  unfolding first_index_def
proof (induction xs arbitrary: j)
  case Nil
  then show ?case by simp
next
  case (Cons y ys)
  then show ?case by (cases j) (auto split: if_splits)
qed

lemma op_name_member_op:
  "CHR 0x22 \<notin> set op \<Longrightarrow> op_name (member_op op path k v) = Some op"
  by (simp add: op_name_def member_op_def takeWhile_append)

lemma op_name_container_op: "op_name (container_op path k v) = Some ''add''"
  by (simp add: op_name_def container_op_def)

lemma JsonPatchMap_patches:
  "JsonPatchMap path origMap newMap =
     (let patches =
            (if len_map origMap = 0 then range_new_map path (range_map newMap) True []
             else concat (map (entry_ops path origMap) (range_map newMap)))
      in if patches = [] then
           ([], None, Some (NoPatchRequired ''nothing to patch in map''))
         else
           (map (\<lambda>p. \<lparr>patch = p\<rparr>) patches,
            Some (PatchFunc (''['' @ Join patches '','' @ '']'')), None))"
  by (simp add: JsonPatchMap_def Let_def range_existing_map_concat less_Suc0 del: One_nat_def)

lemma entry_ops_cases:
  "entry_ops path origMap (k, v) =
     (case lookup origMap k of
        None \<Rightarrow> [member_op ''add'' path k v]
      | Some value \<Rightarrow> if v \<noteq> value then [member_op ''replace'' path k v] else [])"
  by (simp add: entry_ops_def split: option.splits)

lemma entry_ops_member:
  "p \<in> set (entry_ops path origMap kv) \<Longrightarrow>
     p = member_op ''add'' path (fst kv) (snd kv) \<or> p = member_op ''replace'' path (fst kv) (snd kv)"
  by (auto simp: entry_ops_def split: option.splits if_splits)

lemma member_op_not_Nil: "member_op op path k v \<noteq> []"
  by (simp add: member_op_def)

lemma container_op_not_Nil: "container_op path k v \<noteq> []"
  by (simp add: container_op_def)

lemma len_map_0_iff: "len_map m = 0 \<longleftrightarrow> m = None \<or> m = Some []"
  by (cases m) auto

text \<open>
  Claim C1. When the original map is absent (\<open>nil\<close>) or empty and the desired map is
  not empty, \<open>JsonPatchMap\<close> emits one \<open>add\<close> at the path itself, whose value is the
  object with the first entry that the iteration yields, under its un-escaped key, and
  then one \<open>add\<close> at \<open>path/key\<close> for each further entry, with the key as it is; the
  apply function sends these operations in this order, and the error is \<open>nil\<close>.
\<close>

theorem C1_map_created_from_first_entry:
  assumes "origMap = None \<or> origMap = Some []"
    and "range_map newMap = (k, v) # rest"
  shows "JsonPatchMap path origMap newMap =
     (\<lparr>patch = container_op path (UnSanitizeKeyForJsonPatch k) v\<rparr>
        # map (\<lambda>kv. \<lparr>patch = member_op ''add'' path (fst kv) (snd kv)\<rparr>) rest,
      Some (PatchFunc (''['' @ Join (container_op path (UnSanitizeKeyForJsonPatch k) v
                # map (\<lambda>kv. member_op ''add'' path (fst kv) (snd kv)) rest) '','' @ '']'')),
      None)
   \<and> op_name (container_op path (UnSanitizeKeyForJsonPatch k) v) = Some ''add''
   \<and> (\<forall>kv \<in> set rest. op_name (member_op ''add'' path (fst kv) (snd kv)) = Some ''add'')"
proof -
  from assms(1) have "len_map origMap = 0"
    by (simp add: len_map_0_iff)
  with assms(2) show ?thesis
    by (simp add: JsonPatchMap_patches range_new_map_first op_name_member_op
        op_name_container_op comp_def del: range_new_map.simps)
qed

theorem C1_map_created_from_first_entry_witness:
  \<open>JsonPatchMap ''/metadata/labels'' None (Some [(''a~1b'', ''1''), (''c~1d'', ''2'')]) =
     ([\<lparr>patch = ''{"op": "add", "path": "/metadata/labels", "value": {"a/b": "1"}}''\<rparr>,
       \<lparr>patch = ''{"op": "add", "path": "/metadata/labels/c~1d", "value": "2"}''\<rparr>],
      Some (PatchFunc ''[{"op": "add", "path": "/metadata/labels", "value": {"a/b": "1"}},{"op": "add", "path": "/metadata/labels/c~1d", "value": "2"}]''),
      None)\<close>
proof -
  have "UnSanitizeKeyForJsonPatch ''a~1b'' = ''a/b''"
    by (simp add: UnSanitizeKeyForJsonPatch_def)
  then show ?thesis
    using C1_map_created_from_first_entry
      [of None "Some [(''a~1b'', ''1''), (''c~1d'', ''2'')]" "''a~1b''" "''1''" "[(''c~1d'', ''2'')]"
        "''/metadata/labels''"]
    by (simp add: container_op_def member_op_def)
qed

text \<open>
  Claim C2. When the original map is not empty, \<open>JsonPatchMap\<close> goes through the
  entries of the desired map in the order of the iteration: a key that the original map
  does not have gives an \<open>add\<close> at \<open>path/key\<close>, a key that it has with another value
  gives a \<open>replace\<close> at \<open>path/key\<close>, a key that it has with the same value gives
  nothing. Every operation emitted is an \<open>add\<close> or a \<open>replace\<close> for an entry of the
  desired map: there is no \<open>remove\<close>, and a key of the original map alone gets no
  operation.
\<close>

theorem C2_map_add_or_replace:
  assumes "len_map origMap \<noteq> 0"
  shows "fst (JsonPatchMap path origMap newMap) =
     map (\<lambda>p. \<lparr>patch = p\<rparr>)
       (concat (map (\<lambda>(k, v).
          case lookup origMap k of
            None \<Rightarrow> [member_op ''add'' path k v]
          | Some value \<Rightarrow> if v \<noteq> value then [member_op ''replace'' path k v] else [])
        (range_map newMap)))
   \<and> (\<forall>p \<in> set (fst (JsonPatchMap path origMap newMap)).
        (op_name (Get p) = Some ''add'' \<or> op_name (Get p) = Some ''replace'')
        \<and> op_name (Get p) \<noteq> Some ''remove''
        \<and> (\<exists>kv \<in> set (range_map newMap).
              Get p = member_op ''add'' path (fst kv) (snd kv)
              \<or> Get p = member_op ''replace'' path (fst kv) (snd kv)))"
proof -
  let ?ops = "concat (map (entry_ops path origMap) (range_map newMap))"
  have eq: "(\<lambda>(k, v). case lookup origMap k of
               None \<Rightarrow> [member_op ''add'' path k v]
             | Some value \<Rightarrow> if v \<noteq> value then [member_op ''replace'' path k v] else [])
            = entry_ops path origMap"
    by (rule ext) (simp add: entry_ops_def split: prod.splits option.splits)
  from assms have res: "fst (JsonPatchMap path origMap newMap) = map (\<lambda>p. \<lparr>patch = p\<rparr>) ?ops"
    by (simp add: JsonPatchMap_patches Let_def)
  have ops: "\<exists>kv \<in> set (range_map newMap).
      q = member_op ''add'' path (fst kv) (snd kv) \<or> q = member_op ''replace'' path (fst kv) (snd kv)"
    if "q \<in> set ?ops" for q
  proof -
    from that obtain kv where kv: "kv \<in> set (range_map newMap)"
      and q: "q \<in> set (entry_ops path origMap kv)"
      by auto
    from entry_ops_member [OF q] kv show ?thesis
      by blast
  qed
  have names: "(op_name q = Some ''add'' \<or> op_name q = Some ''replace'') \<and> op_name q \<noteq> Some ''remove''"
    if "q \<in> set ?ops" for q
  proof -
    from ops [OF that] obtain kv where
      "q = member_op ''add'' path (fst kv) (snd kv) \<or> q = member_op ''replace'' path (fst kv) (snd kv)"
      by blast
    then show ?thesis
      by (auto simp: op_name_member_op)
  qed
  have all: "\<forall>p \<in> set (map (\<lambda>p. \<lparr>patch = p\<rparr>) ?ops).
        (op_name (Get p) = Some ''add'' \<or> op_name (Get p) = Some ''replace'')
        \<and> op_name (Get p) \<noteq> Some ''remove''
        \<and> (\<exists>kv \<in> set (range_map newMap).
              Get p = member_op ''add'' path (fst kv) (snd kv)
              \<or> Get p = member_op ''replace'' path (fst kv) (snd kv))"
  proof
    fix p assume "p \<in> set (map (\<lambda>p. \<lparr>patch = p\<rparr>) ?ops)"
    then obtain q where q: "q \<in> set ?ops" and p: "p = \<lparr>patch = q\<rparr>"
      by auto
    from p have "Get p = q"
      by (simp add: Get_def)
    with ops [OF q] names [OF q] show "(op_name (Get p) = Some ''add'' \<or> op_name (Get p) = Some ''replace'')
        \<and> op_name (Get p) \<noteq> Some ''remove''
        \<and> (\<exists>kv \<in> set (range_map newMap).
              Get p = member_op ''add'' path (fst kv) (snd kv)
              \<or> Get p = member_op ''replace'' path (fst kv) (snd kv))"
      by simp
  qed
  show ?thesis
    unfolding eq res using all by blast
qed

theorem C2_map_add_or_replace_witness:
  "fst (JsonPatchMap ''/metadata/labels'' (Some [(''k1'', ''v1''), (''k2'', ''v2'')])
         (Some [(''k1'', ''v1''), (''k3'', ''v3'')]))
     = [\<lparr>patch = member_op ''add'' ''/metadata/labels'' ''k3'' ''v3''\<rparr>]"
proof -
  have "len_map (Some [(''k1'', ''v1''), (''k2'', ''v2'')]) \<noteq> 0"
    by simp
  from conjunct1 [OF C2_map_add_or_replace [OF this, of "''/metadata/labels''"
      "Some [(''k1'', ''v1''), (''k3'', ''v3'')]"]]
  show ?thesis
    by simp
qed

lemma JsonPatchMap_no_patches:
  "fst (JsonPatchMap path origMap newMap) = [] \<Longrightarrow>
   JsonPatchMap path origMap newMap = ([], None, Some (NoPatchRequired ''nothing to patch in map''))"
  unfolding JsonPatchMap_patches Let_def
  by (simp split: if_splits)

lemma JsonPatchMap_thunk_None_iff:
  "fst (snd (JsonPatchMap path origMap newMap)) = None
     \<longleftrightarrow> fst (JsonPatchMap path origMap newMap) = []"
  unfolding JsonPatchMap_patches Let_def
  by simp

lemma lookup_range_map: "lookup m = map_of (range_map m)"
  by (cases m) auto

lemma entry_ops_same:
  assumes "distinct (map fst (range_map newMap))"
    and "lookup newMap = lookup origMap"
    and "kv \<in> set (range_map newMap)"
  shows "entry_ops path origMap kv = []"
proof -
  from assms(1,3) have "map_of (range_map newMap) (fst kv) = Some (snd kv)"
    by simp
  then have "lookup origMap (fst kv) = Some (snd kv)"
    using assms(2) by (simp add: lookup_range_map)
  then show ?thesis
    by (simp add: entry_ops_def)
qed

lemma JsonPatchMap_same:
  assumes "len_map origMap \<noteq> 0"
    and "distinct (map fst (range_map newMap))"
    and "lookup newMap = lookup origMap"
  shows "JsonPatchMap path origMap newMap =
    ([], None, Some (NoPatchRequired ''nothing to patch in map''))"
proof -
  have "concat (map (entry_ops path origMap) (range_map newMap)) = []"
    using entry_ops_same [OF assms(2,3)] by simp
  with assms(1) show ?thesis
    unfolding JsonPatchMap_patches Let_def by simp
qed

text \<open>
  Claim C8. When the list of operations that \<open>JsonPatchMap\<close> computed is empty, it
  returns the error \<open>NoPatchRequired\<close> with the message \<open>nothing to patch in map\<close> and
  no apply function; this is the case whenever the desired map is equal to a non-empty
  original map. An apply function is missing only then.
\<close>

theorem C8_map_nothing_to_patch:
  "(fst (JsonPatchMap path origMap newMap) = [] \<longrightarrow>
      JsonPatchMap path origMap newMap =
        ([], None, Some (NoPatchRequired ''nothing to patch in map'')))
   \<and> (len_map origMap \<noteq> 0 \<and> distinct (map fst (range_map newMap))
        \<and> lookup newMap = lookup origMap \<longrightarrow>
      JsonPatchMap path origMap newMap =
        ([], None, Some (NoPatchRequired ''nothing to patch in map'')))
   \<and> (fst (snd (JsonPatchMap path origMap newMap)) = None
        \<longleftrightarrow> fst (JsonPatchMap path origMap newMap) = [])
   \<and> Error (NoPatchRequired ''nothing to patch in map'') = ''nothing to patch in map''"
proof (intro conjI impI)
  show "JsonPatchMap path origMap newMap =
      ([], None, Some (NoPatchRequired ''nothing to patch in map''))"
    if "fst (JsonPatchMap path origMap newMap) = []"
    using that by (rule JsonPatchMap_no_patches)
  show "JsonPatchMap path origMap newMap =
      ([], None, Some (NoPatchRequired ''nothing to patch in map''))"
    if "len_map origMap \<noteq> 0 \<and> distinct (map fst (range_map newMap))
        \<and> lookup newMap = lookup origMap"
    using that JsonPatchMap_same by blast
  show "fst (snd (JsonPatchMap path origMap newMap)) = None
      \<longleftrightarrow> fst (JsonPatchMap path origMap newMap) = []"
    by (rule JsonPatchMap_thunk_None_iff)
  show "Error (NoPatchRequired ''nothing to patch in map'') = ''nothing to patch in map''"
    by simp
qed

theorem C8_map_nothing_to_patch_witness:
  "JsonPatchMap ''/metadata/labels'' (Some [(''k1'', ''v1''), (''k2'', ''v2'')])
         (Some [(''k2'', ''v2''), (''k1'', ''v1'')])
     = ([], None, Some (NoPatchRequired ''nothing to patch in map''))"
proof -
  have same: "lookup (Some [(''k2'', ''v2''), (''k1'', ''v1'')])
      = lookup (Some [(''k1'', ''v1''), (''k2'', ''v2'')])"
    by (rule ext) simp
  have pre: "len_map (Some [(''k1'', ''v1''), (''k2'', ''v2'')]) \<noteq> 0
      \<and> distinct (map fst (range_map (Some [(''k2'', ''v2''), (''k1'', ''v1'')])))
      \<and> lookup (Some [(''k2'', ''v2''), (''k1'', ''v1'')])
          = lookup (Some [(''k1'', ''v1''), (''k2'', ''v2'')])"
    using same by simp
  from conjunct1 [OF conjunct2 [OF C8_map_nothing_to_patch [of "''/metadata/labels''"
        "Some [(''k1'', ''v1''), (''k2'', ''v2'')]" "Some [(''k2'', ''v2''), (''k1'', ''v1'')]"]]]
    pre
  show ?thesis
    by (rule mp)
qed

lemma finalizers_remove_index_op_not_Nil: "finalizers_remove_index_op i \<noteq> []"
  by (simp add: finalizers_remove_index_op_def)

lemma JsonPatchFinalizerOut_one:
  "len_slice (GetFinalizers obj) = 1 \<Longrightarrow>
   JsonPatchFinalizerOut obj finalizer =
     (\<lparr>patch = finalizers_remove_op\<rparr>, Some (PatchFunc (''['' @ finalizers_remove_op @ '']'')), None)"
  by (simp add: JsonPatchFinalizerOut_def Let_def Get_def finalizers_remove_op_def)

lemma JsonPatchFinalizerOut_found:
  assumes "len_slice (GetFinalizers obj) \<noteq> 1"
    and "finalizer \<in> set (range_slice (GetFinalizers obj))"
  shows "JsonPatchFinalizerOut obj finalizer =
     (\<lparr>patch = finalizers_remove_index_op (first_index (range_slice (GetFinalizers obj)) finalizer)\<rparr>,
      Some (PatchFunc (''['' @ finalizers_remove_index_op
                                 (first_index (range_slice (GetFinalizers obj)) finalizer) @ '']'')),
      None)"
  using assms
  by (simp add: JsonPatchFinalizerOut_def Let_def Get_def range_finalizers_found
      finalizers_remove_index_op_not_Nil)

lemma JsonPatchFinalizerOut_not_found:
  assumes "len_slice (GetFinalizers obj) \<noteq> 1"
    and "finalizer \<notin> set (range_slice (GetFinalizers obj))"
  shows "JsonPatchFinalizerOut obj finalizer =
     (\<lparr>patch = ''''\<rparr>, None, Some (NoPatchRequired ''finalizer index not found''))"
  using assms
  by (simp add: JsonPatchFinalizerOut_def Let_def Get_def range_finalizers_not_found)

text \<open>
  Claim C3. \<open>JsonPatchFinalizerOut\<close>: with exactly one finalizer in the list it emits one
  \<open>remove\<close> at \<open>/metadata/finalizers\<close>, whatever the finalizer asked for; with more than
  one it emits one \<open>remove\<close> at \<open>/metadata/finalizers/i\<close>, where \<open>i\<close> is the first index
  that holds the finalizer asked for; when the list has no or several elements and none
  is the finalizer asked for, it returns the error \<open>NoPatchRequired\<close> with the message
  \<open>finalizer index not found\<close> and no apply function.
\<close>

theorem C3_finalizer_out:
  "(len_slice (GetFinalizers obj) = 1 \<longrightarrow>
      JsonPatchFinalizerOut obj finalizer =
        (\<lparr>patch = finalizers_remove_op\<rparr>,
         Some (PatchFunc (''['' @ finalizers_remove_op @ '']'')), None))
   \<and> (1 < len_slice (GetFinalizers obj) \<and> finalizer \<in> set (range_slice (GetFinalizers obj)) \<longrightarrow>
      (let fins = range_slice (GetFinalizers obj); i = first_index fins finalizer
       in i < length fins \<and> fins ! i = finalizer \<and> (\<forall>j < i. fins ! j \<noteq> finalizer)
          \<and> JsonPatchFinalizerOut obj finalizer =
               (\<lparr>patch = finalizers_remove_index_op i\<rparr>,
                Some (PatchFunc (''['' @ finalizers_remove_index_op i @ '']'')), None)))
   \<and> (len_slice (GetFinalizers obj) \<noteq> 1 \<and> finalizer \<notin> set (range_slice (GetFinalizers obj)) \<longrightarrow>
      JsonPatchFinalizerOut obj finalizer =
        (\<lparr>patch = ''''\<rparr>, None, Some (NoPatchRequired ''finalizer index not found''))
      \<and> Error (NoPatchRequired ''finalizer index not found'') = ''finalizer index not found'')"
proof (intro conjI impI)
  assume "len_slice (GetFinalizers obj) = 1"
  then show "JsonPatchFinalizerOut obj finalizer =
        (\<lparr>patch = finalizers_remove_op\<rparr>,
         Some (PatchFunc (''['' @ finalizers_remove_op @ '']'')), None)"
    by (rule JsonPatchFinalizerOut_one)
next
  assume a: "1 < len_slice (GetFinalizers obj) \<and> finalizer \<in> set (range_slice (GetFinalizers obj))"
  then have ne: "len_slice (GetFinalizers obj) \<noteq> 1"
    and mem: "finalizer \<in> set (range_slice (GetFinalizers obj))"
    by simp_all
  show "let fins = range_slice (GetFinalizers obj); i = first_index fins finalizer
       in i < length fins \<and> fins ! i = finalizer \<and> (\<forall>j < i. fins ! j \<noteq> finalizer)
          \<and> JsonPatchFinalizerOut obj finalizer =
               (\<lparr>patch = finalizers_remove_index_op i\<rparr>,
                Some (PatchFunc (''['' @ finalizers_remove_index_op i @ '']'')), None)"
    unfolding Let_def
    using first_index_less [OF mem] first_index_nth [OF mem] first_index_first
      JsonPatchFinalizerOut_found [OF ne mem]
    by blast
next
  assume "len_slice (GetFinalizers obj) \<noteq> 1 \<and> finalizer \<notin> set (range_slice (GetFinalizers obj))"
  then show "JsonPatchFinalizerOut obj finalizer =
        (\<lparr>patch = ''''\<rparr>, None, Some (NoPatchRequired ''finalizer index not found''))"
    using JsonPatchFinalizerOut_not_found by blast
next
  show "Error (NoPatchRequired ''finalizer index not found'') = ''finalizer index not found''"
    by simp
qed

theorem C3_finalizer_out_witness:
  \<open>JsonPatchFinalizerOut \<lparr>Finalizers = Some [''keep'']\<rparr> ''gone'' =
     (\<lparr>patch = ''{"op": "remove", "path": "/metadata/finalizers"}''\<rparr>,
      Some (PatchFunc ''[{"op": "remove", "path": "/metadata/finalizers"}]''), None)
   \<and> JsonPatchFinalizerOut \<lparr>Finalizers = Some [''a'', ''c'', ''b'', ''b'']\<rparr> ''b'' =
     (\<lparr>patch = ''{"op": "remove", "path": "/metadata/finalizers/2"}''\<rparr>,
      Some (PatchFunc ''[{"op": "remove", "path": "/metadata/finalizers/2"}]''), None)
   \<and> JsonPatchFinalizerOut \<lparr>Finalizers = Some [''a'', ''c'']\<rparr> ''b'' =
     (\<lparr>patch = ''''\<rparr>, None, Some (NoPatchRequired ''finalizer index not found''))
   \<and> JsonPatchFinalizerOut \<lparr>Finalizers = None\<rparr> ''b'' =
     (\<lparr>patch = ''''\<rparr>, None, Some (NoPatchRequired ''finalizer index not found''))\<close>
proof -
  have i: "first_index [''a'', ''c'', ''b'', ''b''] ''b'' = 2"
    by (simp add: first_index_def)
  have d: "Itoa 2 = ''2''"
    by code_simp
  show ?thesis
    using C3_finalizer_out [of "\<lparr>Finalizers = Some [''keep'']\<rparr>" "''gone''"]
      C3_finalizer_out [of "\<lparr>Finalizers = Some [''a'', ''c'', ''b'', ''b'']\<rparr>" "''b''"]
      C3_finalizer_out [of "\<lparr>Finalizers = Some [''a'', ''c'']\<rparr>" "''b''"]
      C3_finalizer_out [of "\<lparr>Finalizers = None\<rparr>" "''b''"]
    by (simp add: GetFinalizers_def i d Let_def finalizers_remove_op_def
        finalizers_remove_index_op_def)
qed

lemma JsonPatchFinalizerIn_nil:
  "GetFinalizers obj = None \<Longrightarrow>
   JsonPatchFinalizerIn obj finalizer =
     (\<lparr>patch = finalizers_create_op finalizer\<rparr>,
      Some (PatchFunc (''['' @ finalizers_create_op finalizer @ '']'')), None)"
  by (simp add: JsonPatchFinalizerIn_def Let_def Get_def Sprintf_create del: Sprintf.simps)

lemma JsonPatchFinalizerIn_not_nil:
  "GetFinalizers obj \<noteq> None \<Longrightarrow>
   JsonPatchFinalizerIn obj finalizer =
     (\<lparr>patch = finalizers_append_op finalizer\<rparr>,
      Some (PatchFunc (''['' @ finalizers_append_op finalizer @ '']'')), None)"
  by (cases "GetFinalizers obj")
    (simp_all add: JsonPatchFinalizerIn_def Let_def Get_def Sprintf_append del: Sprintf.simps)

lemma create_op_neq_append_op: "finalizers_create_op f \<noteq> finalizers_append_op g"
  by (simp add: finalizers_create_op_def finalizers_append_op_def)

lemma op_name_finalizer_ops:
  "op_name (finalizers_create_op f) = Some ''add''"
  "op_name (finalizers_append_op f) = Some ''add''"
  by (simp_all add: op_name_def finalizers_create_op_def finalizers_append_op_def)

text \<open>
  Claim C6. \<open>JsonPatchFinalizerIn\<close>: when the finalizer list of the object is \<open>nil\<close> it
  emits one \<open>add\<close> at \<open>/metadata/finalizers\<close> whose value is the list of the one
  finalizer; otherwise it emits one \<open>add\<close> at \<open>/metadata/finalizers/-\<close> with the
  finalizer, also when the list already holds it.
\<close>

theorem C6_finalizer_in:
  "(GetFinalizers obj = None \<longrightarrow>
      JsonPatchFinalizerIn obj finalizer =
        (\<lparr>patch = finalizers_create_op finalizer\<rparr>,
         Some (PatchFunc (''['' @ finalizers_create_op finalizer @ '']'')), None))
   \<and> (GetFinalizers obj \<noteq> None \<longrightarrow>
      JsonPatchFinalizerIn obj finalizer =
        (\<lparr>patch = finalizers_append_op finalizer\<rparr>,
         Some (PatchFunc (''['' @ finalizers_append_op finalizer @ '']'')), None))
   \<and> (finalizer \<in> set (range_slice (GetFinalizers obj)) \<longrightarrow>
      JsonPatchFinalizerIn obj finalizer =
        (\<lparr>patch = finalizers_append_op finalizer\<rparr>,
         Some (PatchFunc (''['' @ finalizers_append_op finalizer @ '']'')), None))
   \<and> op_name (finalizers_create_op finalizer) = Some ''add''
   \<and> op_name (finalizers_append_op finalizer) = Some ''add''"
proof (intro conjI impI)
  assume "finalizer \<in> set (range_slice (GetFinalizers obj))"
  then have "GetFinalizers obj \<noteq> None"
    by (cases "GetFinalizers obj") auto
  then show "JsonPatchFinalizerIn obj finalizer =
        (\<lparr>patch = finalizers_append_op finalizer\<rparr>,
         Some (PatchFunc (''['' @ finalizers_append_op finalizer @ '']'')), None)"
    by (rule JsonPatchFinalizerIn_not_nil)
qed (simp_all add: JsonPatchFinalizerIn_nil JsonPatchFinalizerIn_not_nil op_name_finalizer_ops)

theorem C6_finalizer_in_witness:
  \<open>JsonPatchFinalizerIn \<lparr>Finalizers = None\<rparr> ''add-my/finalizer'' =
     (\<lparr>patch = ''{"op": "add", "path": "/metadata/finalizers", "value": ["add-my/finalizer"]}''\<rparr>,
      Some (PatchFunc ''[{"op": "add", "path": "/metadata/finalizers", "value": ["add-my/finalizer"]}]''),
      None)
   \<and> JsonPatchFinalizerIn \<lparr>Finalizers = Some [''here/already'']\<rparr> ''here/already'' =
     (\<lparr>patch = ''{"op": "add", "path": "/metadata/finalizers/-", "value": "here/already"}''\<rparr>,
      Some (PatchFunc ''[{"op": "add", "path": "/metadata/finalizers/-", "value": "here/already"}]''),
      None)\<close>
  using C6_finalizer_in [of "\<lparr>Finalizers = None\<rparr>" "''add-my/finalizer''"]
    C6_finalizer_in [of "\<lparr>Finalizers = Some [''here/already'']\<rparr>" "''here/already''"]
  by (simp add: GetFinalizers_def finalizers_create_op_def finalizers_append_op_def)

text \<open>
  Claim C10. For a finalizer list that is not \<open>nil\<close> and has no element,
  \<open>JsonPatchFinalizerIn\<close> emits the \<open>add\<close> at \<open>/metadata/finalizers/-\<close> and not the
  \<open>add\<close> at \<open>/metadata/finalizers\<close> that creates the list: among the objects with a
  list of length 0, the list is created exactly for those whose list is \<open>nil\<close>.
\<close>

theorem C10_finalizer_in_empty_list:
  "JsonPatchFinalizerIn \<lparr>Finalizers = Some []\<rparr> finalizer =
     (\<lparr>patch = finalizers_append_op finalizer\<rparr>,
      Some (PatchFunc (''['' @ finalizers_append_op finalizer @ '']'')), None)
   \<and> fst (JsonPatchFinalizerIn \<lparr>Finalizers = Some []\<rparr> finalizer)
       \<noteq> \<lparr>patch = finalizers_create_op finalizer\<rparr>
   \<and> len_slice (GetFinalizers \<lparr>Finalizers = Some []\<rparr>) = len_slice (GetFinalizers \<lparr>Finalizers = None\<rparr>)
   \<and> fst (JsonPatchFinalizerIn \<lparr>Finalizers = None\<rparr> finalizer)
       = \<lparr>patch = finalizers_create_op finalizer\<rparr>"
proof -
  have a: "GetFinalizers \<lparr>Finalizers = Some []\<rparr> \<noteq> None"
    and n: "GetFinalizers \<lparr>Finalizers = None\<rparr> = None"
    by (simp_all add: GetFinalizers_def)
  have "finalizers_append_op finalizer \<noteq> finalizers_create_op finalizer"
    using create_op_neq_append_op [of finalizer finalizer] by simp
  then show ?thesis
    by (simp add: JsonPatchFinalizerIn_not_nil [OF a] JsonPatchFinalizerIn_nil [OF n])
      (simp add: GetFinalizers_def)
qed

lemma HasPrefix_append: "HasPrefix (p @ s) p"
  by (induction p) simp_all

lemma spec_value_spec_replace_op: "spec_value (spec_replace_op marshaled) = Some marshaled"
proof -
  obtain pre :: string where pre: \<open>pre = ''{"op": "replace", "path": "/spec", "value": ''\<close>
    by blast
  have op: "spec_replace_op marshaled = pre @ marshaled @ ''}''"
    by (simp add: spec_replace_op_def pre)
  have sv: "spec_value p =
      (if HasPrefix p pre \<and> length pre < length p \<and> last p = CHR ''}''
       then Some (butlast (drop (length pre) p)) else None)" for p
    by (simp add: spec_value_def pre Let_def)
  have "butlast (drop (length pre) (pre @ marshaled @ ''}'')) = marshaled"
    by (simp add: butlast_append)
  then show ?thesis
    unfolding op sv using HasPrefix_append [of pre "marshaled @ ''}''"]
    by simp
qed

lemma op_name_spec_replace_op: "op_name (spec_replace_op marshaled) = Some ''replace''"
  by (simp add: op_name_def spec_replace_op_def)

lemma JsonPatchSpec_Inl:
  "Marshal spec = Inl err \<Longrightarrow> JsonPatchSpec Marshal spec = (\<lparr>patch = ''''\<rparr>, None, Some err)"
  by (simp add: JsonPatchSpec_def)

lemma JsonPatchSpec_Inr:
  "Marshal spec = Inr marshaled \<Longrightarrow>
   JsonPatchSpec Marshal spec =
     (\<lparr>patch = spec_replace_op marshaled\<rparr>,
      Some (PatchFunc (''['' @ spec_replace_op marshaled @ '']'')), None)"
  by (simp add: JsonPatchSpec_def Let_def Get_def spec_replace_op_def)

text \<open>
  Claim C7, as stated: whenever the serialization succeeds, decoding the value of the
  emitted \<open>replace\<close> yields the original payload. This fails for a payload that
  \<open>json.Marshal\<close> encodes with a loss: for \<^verbatim>\<open>struct { a int }\<close> with \<open>a = 1\<close> the
  serialization succeeds, the value of the patch is \<open>{}\<close>, the same as for \<open>a = 0\<close>, and
  decoding it gives the payload with \<open>a = 0\<close>.
\<close>

theorem C7_round_trip_counterexample:
  \<open>JsonPatchSpec marshal_unexported 1 =
     (\<lparr>patch = ''{"op": "replace", "path": "/spec", "value": {}}''\<rparr>,
      Some (PatchFunc ''[{"op": "replace", "path": "/spec", "value": {}}]''), None)
   \<and> spec_value (Get (fst (JsonPatchSpec marshal_unexported 1))) = Some ''{}''
   \<and> Option.bind (spec_value (Get (fst (JsonPatchSpec marshal_unexported 1)))) unmarshal_unexported
       = Some 0
   \<and> Option.bind (spec_value (Get (fst (JsonPatchSpec marshal_unexported 1)))) unmarshal_unexported
       \<noteq> Some 1
   \<and> JsonPatchSpec marshal_unexported 1 = JsonPatchSpec marshal_unexported 0\<close>
proof -
  have m: "marshal_unexported a = Inr ''{}''" for a
    by (simp add: marshal_unexported_def)
  have r: "JsonPatchSpec marshal_unexported a =
      (\<lparr>patch = spec_replace_op ''{}''\<rparr>,
       Some (PatchFunc (''['' @ spec_replace_op ''{}'' @ '']'')), None)" for a
    using m [of a] by (rule JsonPatchSpec_Inr)
  have v: "spec_value (Get (fst (JsonPatchSpec marshal_unexported 1))) = Some ''{}''"
    by (simp add: r Get_def spec_value_spec_replace_op)
  have d: "Option.bind (spec_value (Get (fst (JsonPatchSpec marshal_unexported 1))))
      unmarshal_unexported = Some 0"
    unfolding v by (simp add: unmarshal_unexported_def)
  have lit: \<open>JsonPatchSpec marshal_unexported 1 =
     (\<lparr>patch = ''{"op": "replace", "path": "/spec", "value": {}}''\<rparr>,
      Some (PatchFunc ''[{"op": "replace", "path": "/spec", "value": {}}]''), None)\<close>
    unfolding r by (simp add: spec_replace_op_def)
  have same: "JsonPatchSpec marshal_unexported 1 = JsonPatchSpec marshal_unexported 0"
    unfolding r by (rule refl)
  have ne: "Option.bind (spec_value (Get (fst (JsonPatchSpec marshal_unexported 1))))
      unmarshal_unexported \<noteq> Some 1"
    unfolding d by simp
  from lit v d ne same show ?thesis
    by (intro conjI)
qed

text \<open>
  Claim C7, amended. \<open>JsonPatchSpec\<close>: when \<open>json.Marshal\<close> fails, its error is returned
  with an empty patch and no apply function. When it succeeds, the one operation emitted
  is a \<open>replace\<close> at \<open>/spec\<close> whose value is, byte for byte, the encoding that
  \<open>json.Marshal\<close> returned; an apply function is returned and the error is \<open>nil\<close>.
  Decoding the value of the patch gives what decoding that encoding gives, so it yields
  the original payload exactly when the decoder takes the encoding of this payload back
  to the payload.
\<close>

theorem C7_spec_replace_value_is_encoding:
  "(Marshal spec = Inl err \<longrightarrow>
      JsonPatchSpec Marshal spec = (\<lparr>patch = ''''\<rparr>, None, Some err))
   \<and> (Marshal spec = Inr marshaled \<longrightarrow>
      JsonPatchSpec Marshal spec =
        (\<lparr>patch = spec_replace_op marshaled\<rparr>,
         Some (PatchFunc (''['' @ spec_replace_op marshaled @ '']'')), None)
      \<and> op_name (Get (fst (JsonPatchSpec Marshal spec))) = Some ''replace''
      \<and> spec_value (Get (fst (JsonPatchSpec Marshal spec))) = Some marshaled
      \<and> Option.bind (spec_value (Get (fst (JsonPatchSpec Marshal spec)))) Unmarshal
           = Unmarshal marshaled
      \<and> (Option.bind (spec_value (Get (fst (JsonPatchSpec Marshal spec)))) Unmarshal = Some spec
           \<longleftrightarrow> Unmarshal marshaled = Some spec))"
proof (intro conjI impI)
  assume "Marshal spec = Inl err"
  then show "JsonPatchSpec Marshal spec = (\<lparr>patch = ''''\<rparr>, None, Some err)"
    by (rule JsonPatchSpec_Inl)
next
  assume m: "Marshal spec = Inr marshaled"
  show "JsonPatchSpec Marshal spec =
        (\<lparr>patch = spec_replace_op marshaled\<rparr>,
         Some (PatchFunc (''['' @ spec_replace_op marshaled @ '']'')), None)"
    using m by (rule JsonPatchSpec_Inr)
  show "op_name (Get (fst (JsonPatchSpec Marshal spec))) = Some ''replace''"
    by (simp add: JsonPatchSpec_Inr [of Marshal spec marshaled, OF m] Get_def op_name_spec_replace_op)
  show v: "spec_value (Get (fst (JsonPatchSpec Marshal spec))) = Some marshaled"
    by (simp add: JsonPatchSpec_Inr [of Marshal spec marshaled, OF m] Get_def spec_value_spec_replace_op)
  show b: "Option.bind (spec_value (Get (fst (JsonPatchSpec Marshal spec)))) Unmarshal
      = Unmarshal marshaled"
    by (simp add: v)
  show "Option.bind (spec_value (Get (fst (JsonPatchSpec Marshal spec)))) Unmarshal = Some spec
      \<longleftrightarrow> Unmarshal marshaled = Some spec"
    by (simp add: b)
qed

theorem C7_spec_replace_value_is_encoding_witness:
  \<open>JsonPatchSpec (\<lambda>b. Inr (if b then ''true'' else ''false'')) True =
     (\<lparr>patch = ''{"op": "replace", "path": "/spec", "value": true}''\<rparr>,
      Some (PatchFunc ''[{"op": "replace", "path": "/spec", "value": true}]''), None)
   \<and> Option.bind (spec_value (Get (fst (JsonPatchSpec (\<lambda>b. Inr (if b then ''true'' else ''false'')) True))))
        (\<lambda>s. if s = ''true'' then Some True else if s = ''false'' then Some False else None)
       = Some True
   \<and> JsonPatchSpec (\<lambda>u :: unit. Inl (MarshalError ''json: unsupported type: chan int'')) () =
       (\<lparr>patch = ''''\<rparr>, None, Some (MarshalError ''json: unsupported type: chan int''))\<close>
proof -
  have m: "Inr (if True then ''true'' else ''false'') = (Inr ''true'' :: error + string)"
    by simp
  have u: "(if ''true'' = ''true'' then Some True
            else if ''true'' = ''false'' then Some False else None) = Some True"
    by simp
  from C7_spec_replace_value_is_encoding
      [of "\<lambda>b. Inr (if b then ''true'' else ''false'')" True
      "MarshalError ''none''" "''true''"
      "\<lambda>s. if s = ''true'' then Some True else if s = ''false'' then Some False else None"]
    m u
  have a: "JsonPatchSpec (\<lambda>b. Inr (if b then ''true'' else ''false'')) True =
        (\<lparr>patch = spec_replace_op ''true''\<rparr>,
         Some (PatchFunc (''['' @ spec_replace_op ''true'' @ '']'')), None)"
    and b: "Option.bind
        (spec_value (Get (fst (JsonPatchSpec (\<lambda>b. Inr (if b then ''true'' else ''false'')) True))))
        (\<lambda>s. if s = ''true'' then Some True else if s = ''false'' then Some False else None)
       = Some True"
    by blast+
  from C7_spec_replace_value_is_encoding
      [of "\<lambda>u :: unit. Inl (MarshalError ''json: unsupported type: chan int'')"
      "()" "MarshalError ''json: unsupported type: chan int''" "[]" "\<lambda>s. None"]
  have c: "JsonPatchSpec (\<lambda>u :: unit. Inl (MarshalError ''json: unsupported type: chan int'')) () =
       (\<lparr>patch = []\<rparr>, None, Some (MarshalError ''json: unsupported type: chan int''))"
    by blast
  have a': \<open>JsonPatchSpec (\<lambda>b. Inr (if b then ''true'' else ''false'')) True =
     (\<lparr>patch = ''{"op": "replace", "path": "/spec", "value": true}''\<rparr>,
      Some (PatchFunc ''[{"op": "replace", "path": "/spec", "value": true}]''), None)\<close>
    unfolding a by (simp add: spec_replace_op_def)
  from a' b c show ?thesis
    by (intro conjI)
qed

lemma range_new_map_True_not_Nil:
  "kvs \<noteq> [] \<Longrightarrow> range_new_map path kvs True [] \<noteq> []"
  by (cases kvs) (auto simp: range_new_map_first simp del: range_new_map.simps)

lemma range_new_map_True_elems:
  assumes "p \<in> set (range_new_map path kvs True [])"
  shows "p \<noteq> []"
proof (cases kvs)
  case Nil
  with assms show ?thesis by simp
next
  case (Cons kv rest)
  obtain k v where kv: "kv = (k, v)"
    by (cases kv)
  from assms have "p = container_op path (UnSanitizeKeyForJsonPatch k) v
      \<or> (\<exists>e \<in> set rest. p = member_op ''add'' path (fst e) (snd e))"
    unfolding Cons kv range_new_map_first by auto
  then show ?thesis
    by (elim disjE bexE) (simp_all add: member_op_not_Nil container_op_not_Nil)
qed

lemma entry_ops_elems:
  assumes "p \<in> set (concat (map (entry_ops path origMap) kvs))"
  shows "p \<noteq> []"
proof -
  from assms obtain kv where "p \<in> set (entry_ops path origMap kv)"
    by auto
  from entry_ops_member [OF this] show ?thesis
    by (elim disjE) (simp_all add: member_op_not_Nil)
qed

lemma JsonPatchMap_nil_error:
  assumes "snd (snd (JsonPatchMap path origMap newMap)) = None"
  shows "fst (JsonPatchMap path origMap newMap) \<noteq> []
    \<and> (\<forall>p \<in> set (fst (JsonPatchMap path origMap newMap)). Get p \<noteq> [])
    \<and> fst (snd (JsonPatchMap path origMap newMap)) \<noteq> None"
proof (cases "len_map origMap = 0")
  case True
  with assms show ?thesis
    unfolding JsonPatchMap_patches Let_def
    using range_new_map_True_elems [of _ path "range_map newMap"]
    by (auto simp: Get_def split: if_splits)
next
  case False
  with assms show ?thesis
    unfolding JsonPatchMap_patches Let_def
    using entry_ops_elems [of _ path origMap "range_map newMap"]
    by (auto simp: Get_def split: if_splits)
qed

lemma JsonPatchFinalizerOut_nil_error:
  assumes "snd (snd (JsonPatchFinalizerOut obj finalizer)) = None"
  shows "Get (fst (JsonPatchFinalizerOut obj finalizer)) \<noteq> []"
proof (cases "len_slice (GetFinalizers obj) = 1")
  case True
  then show ?thesis
    by (simp add: JsonPatchFinalizerOut_one Get_def finalizers_remove_op_def)
next
  case ne: False
  show ?thesis
  proof (cases "finalizer \<in> set (range_slice (GetFinalizers obj))")
    case True
    then show ?thesis
      by (simp add: JsonPatchFinalizerOut_found [OF ne] Get_def finalizers_remove_index_op_not_Nil)
  next
    case False
    with assms show ?thesis
      by (simp add: JsonPatchFinalizerOut_not_found [OF ne])
  qed
qed

text \<open>
  Claim C9. Whenever one of the four builders returns a \<open>nil\<close> error, what it returns
  holds at least one operation: \<open>JsonPatchMap\<close> returns a list that is not empty, of
  patches that are not empty, and the patch of \<open>JsonPatchFinalizerIn\<close> (whose error
  is always \<open>nil\<close>), of \<open>JsonPatchFinalizerOut\<close> and of \<open>JsonPatchSpec\<close> is not the
  empty string.
\<close>

theorem C9_patch_never_empty:
  "(snd (snd (JsonPatchMap path origMap newMap)) = None \<longrightarrow>
      fst (JsonPatchMap path origMap newMap) \<noteq> []
      \<and> (\<forall>p \<in> set (fst (JsonPatchMap path origMap newMap)). Get p \<noteq> []))
   \<and> snd (snd (JsonPatchFinalizerIn obj finalizer)) = None
   \<and> Get (fst (JsonPatchFinalizerIn obj finalizer)) \<noteq> []
   \<and> (snd (snd (JsonPatchFinalizerOut obj finalizer)) = None \<longrightarrow>
      Get (fst (JsonPatchFinalizerOut obj finalizer)) \<noteq> [])
   \<and> (snd (snd (JsonPatchSpec Marshal spec)) = None \<longrightarrow>
      Get (fst (JsonPatchSpec Marshal spec)) \<noteq> [])"
proof -
  have p1: "fst (JsonPatchMap path origMap newMap) \<noteq> []
      \<and> (\<forall>p \<in> set (fst (JsonPatchMap path origMap newMap)). Get p \<noteq> [])"
    if "snd (snd (JsonPatchMap path origMap newMap)) = None"
    using JsonPatchMap_nil_error [OF that] by blast
  have p2: "snd (snd (JsonPatchFinalizerIn obj finalizer)) = None"
    by (simp add: JsonPatchFinalizerIn_def Let_def)
  have p3: "Get (fst (JsonPatchFinalizerIn obj finalizer)) \<noteq> []"
    by (cases "GetFinalizers obj = None")
      (simp_all add: JsonPatchFinalizerIn_nil JsonPatchFinalizerIn_not_nil Get_def
        finalizers_create_op_def finalizers_append_op_def)
  have p4: "Get (fst (JsonPatchFinalizerOut obj finalizer)) \<noteq> []"
    if "snd (snd (JsonPatchFinalizerOut obj finalizer)) = None"
    using that by (rule JsonPatchFinalizerOut_nil_error)
  have p5: "Get (fst (JsonPatchSpec Marshal spec)) \<noteq> []"
    if "snd (snd (JsonPatchSpec Marshal spec)) = None"
    using that
    by (cases "Marshal spec") (simp_all add: JsonPatchSpec_def Let_def Get_def)
  from p1 p2 p3 p4 p5 show ?thesis
    by blast
qed

theorem C9_patch_never_empty_witness:
  "snd (snd (JsonPatchMap ''/metadata/labels'' None (Some [(''a'', ''1'')]))) = None
   \<and> fst (JsonPatchMap ''/metadata/labels'' None (Some [(''a'', ''1'')])) \<noteq> []
   \<and> snd (snd (JsonPatchFinalizerOut \<lparr>Finalizers = Some [''x'', ''y'']\<rparr> ''x'')) = None
   \<and> Get (fst (JsonPatchFinalizerOut \<lparr>Finalizers = Some [''x'', ''y'']\<rparr> ''x'')) \<noteq> []
   \<and> snd (snd (JsonPatchSpec (\<lambda>b. Inr (if b then ''true'' else ''false'')) True)) = None
   \<and> Get (fst (JsonPatchSpec (\<lambda>b. Inr (if b then ''true'' else ''false'')) True)) \<noteq> []"
proof -
  have m: "snd (snd (JsonPatchMap ''/metadata/labels'' None (Some [(''a'', ''1'')]))) = None"
    by (simp add: JsonPatchMap_patches Let_def range_new_map_first del: range_new_map.simps)
  have f: "snd (snd (JsonPatchFinalizerOut \<lparr>Finalizers = Some [''x'', ''y'']\<rparr> ''x'')) = None"
    by (simp add: JsonPatchFinalizerOut_found GetFinalizers_def)
  have s: "snd (snd (JsonPatchSpec (\<lambda>b. Inr (if b then ''true'' else ''false'')) True)) = None"
    by (simp add: JsonPatchSpec_def Let_def)
  from m f s show ?thesis
    using C9_patch_never_empty [of "''/metadata/labels''" None "Some [(''a'', ''1'')]"
        "\<lparr>Finalizers = Some [''x'', ''y'']\<rparr>" "''x''"
        "\<lambda>b. Inr (if b then ''true'' else ''false'')" True]
    by blast
qed

end
